theory Spec2Isabelle
  imports Main
begin

section \<open>Strings and numbers of the host language\<close>

text \<open>
  A JavaScript string is a sequence of UTF-16 code units; a code unit is modelled by its
  value. An ASCII literal of the source is written \<open>lit ''...''\<close>, a character outside
  ASCII by its code units (a surrogate pair for an emoji).
\<close>

type_synonym jsstring = "nat list"

definition lit :: "string \<Rightarrow> jsstring" where
  "lit s = map of_char s"

text \<open>A string in a condition (\<^verbatim>\<open>if (s)\<close>, \<^verbatim>\<open>s && ...\<close>) counts as true when it is not empty.\<close>

definition truthy :: "jsstring \<Rightarrow> bool" where
  "truthy s \<longleftrightarrow> s \<noteq> []"

text \<open>
  \<^verbatim>\<open>String.prototype.trim\<close> removes the WhiteSpace and LineTerminator code points of
  ECMAScript from both ends: TAB, LF, VT, FF, CR, SPACE, NBSP, U+1680, U+2000 to U+200A,
  U+2028, U+2029, U+202F, U+205F, U+3000 and U+FEFF.
\<close>

definition isWhiteSpace :: "nat \<Rightarrow> bool" where
  "isWhiteSpace c \<longleftrightarrow>
     c = 0x9 \<or> c = 0xA \<or> c = 0xB \<or> c = 0xC \<or> c = 0xD \<or> c = 0x20 \<or> c = 0xA0 \<or>
     c = 0x1680 \<or> (0x2000 \<le> c \<and> c \<le> 0x200A) \<or> c = 0x2028 \<or> c = 0x2029 \<or>
     c = 0x202F \<or> c = 0x205F \<or> c = 0x3000 \<or> c = 0xFEFF"

definition trim :: "jsstring \<Rightarrow> jsstring" where
  "trim s = rev (dropWhile isWhiteSpace (rev (dropWhile isWhiteSpace s)))"

text \<open>
  \<^verbatim>\<open>Date.now()\<close> is an integer number of milliseconds; \<^verbatim>\<open>toString\<close> and string
  concatenation render it in decimal, with a minus sign when it is negative.
\<close>

fun digits :: "nat \<Rightarrow> jsstring" where
  "digits n = (if n < 10 then [48 + n] else digits (n div 10) @ [48 + n mod 10])"

declare digits.simps [simp del]

definition number_toString :: "int \<Rightarrow> jsstring" where
  "number_toString n = (if n < 0 then 45 # digits (nat (- n)) else digits (nat n))"

section \<open>Messages (types.ts)\<close>

datatype SenderType = USER | AI | SYSTEM

record message =
  msg_id :: jsstring
  msg_text :: jsstring
  msg_sender :: SenderType
  msg_timestamp :: int

section \<open>The chat service (services/geminiService.ts)\<close>

text \<open>
  A thrown value is an \<^verbatim>\<open>Error\<close> with its message, or anything else. A streamed
  response is an async iterable: the chunks it yields, then its end or the value it throws.
  A chunk is its \<^verbatim>\<open>text\<close> property, which may be undefined.
\<close>

datatype thrown = Error jsstring | NonError

type_synonym chunk = "jsstring option"

datatype stream = Stream "chunk list" "thrown option"

datatype GoogleGenAI = GoogleGenAI jsstring

datatype Chat = Chat jsstring

text \<open>
  The SDK and the environment are inputs of each call: the configured key, what the
  constructor and \<^verbatim>\<open>chats.create\<close> do (return or throw), and what
  \<^verbatim>\<open>chat.sendMessageStream\<close> does (resolve to a stream or reject). The system prompt
  passed to \<^verbatim>\<open>chats.create\<close> is a constant of the source that no operation reads back;
  the created handle records the model name only.
\<close>

record backend =
  API_KEY :: "jsstring option"
  newGoogleGenAI :: "jsstring \<Rightarrow> thrown + GoogleGenAI"
  chats_create :: "GoogleGenAI \<Rightarrow> jsstring \<Rightarrow> thrown + Chat"
  sendMessageStream :: "Chat \<Rightarrow> jsstring \<Rightarrow> thrown + stream"

text \<open>The module variables \<^verbatim>\<open>chat\<close> and \<^verbatim>\<open>ai\<close>.\<close>

record service =
  chat :: "Chat option"
  ai :: "GoogleGenAI option"

definition getAiInstance :: "backend \<Rightarrow> service \<Rightarrow> (thrown + GoogleGenAI) \<times> service" where
  "getAiInstance env s =
     (case ai s of
        Some a \<Rightarrow> (Inr a, s)
      | None \<Rightarrow>
          (case API_KEY env of
             None \<Rightarrow>
               (Inl (Error (lit ''API_KEY environment variable not set. Cannot initialize GoogleGenAI.'')), s)
           | Some k \<Rightarrow>
               if \<not> truthy k
               then (Inl (Error (lit ''API_KEY environment variable not set. Cannot initialize GoogleGenAI.'')), s)
               else (case newGoogleGenAI env k of
                       Inl e \<Rightarrow> (Inl e, s)
                     | Inr a \<Rightarrow> (Inr a, s\<lparr>ai := Some a\<rparr>))))"

definition initializeChat :: "backend \<Rightarrow> service \<Rightarrow> (thrown + unit) \<times> service" where
  "initializeChat env s =
     (case getAiInstance env s of
        (Inl e, s') \<Rightarrow> (Inl e, s')
      | (Inr currentAi, s') \<Rightarrow>
          if chat s' = None
          then (case chats_create env currentAi (lit ''gemini-2.5-flash-preview-04-17'') of
                  Inl e \<Rightarrow> (Inl e, s')
                | Inr c \<Rightarrow> (Inr (), s'\<lparr>chat := Some c\<rparr>))
          else (Inr (), s'))"

text \<open>\<^verbatim>\<open>errorStream()\<close>: an async iterable whose first iteration throws.\<close>

definition errorStream :: "thrown \<Rightarrow> stream" where
  "errorStream e = Stream [] (Some e)"

definition noChatError :: thrown where
  "noChatError = Error (lit ''Chat not initialized. Cannot send message.'')"

text \<open>
  The part of \<^verbatim>\<open>sendMessageToTejaswiStream\<close> after the initialization: the check of
  the handle and the request. The result is the promise's outcome (\<open>Inl\<close>: rejected),
  the module state, and the requests made to \<^verbatim>\<open>chat.sendMessageStream\<close>.
\<close>

definition send_after_init ::
  "jsstring \<Rightarrow> backend \<Rightarrow> service \<Rightarrow> (thrown + stream) \<times> service \<times> jsstring list" where
  "send_after_init userMessage env s =
     (case chat s of
        None \<Rightarrow> (Inr (errorStream noChatError), s, [])
      | Some c \<Rightarrow>
          (case sendMessageStream env c userMessage of
             Inl e \<Rightarrow> (Inl e, s, [userMessage])
           | Inr result \<Rightarrow> (Inr result, s, [userMessage])))"

definition sendMessageToTejaswiStream ::
  "jsstring \<Rightarrow> backend \<Rightarrow> service \<Rightarrow> (thrown + stream) \<times> service \<times> jsstring list" where
  "sendMessageToTejaswiStream userMessage env s =
     (case initializeChat env s of
        (Inl initError, s') \<Rightarrow> (Inr (errorStream initError), s', [])
      | (Inr _, s') \<Rightarrow> send_after_init userMessage env s')"

definition resetChatSession :: "service \<Rightarrow> service" where
  "resetChatSession s = s\<lparr>chat := None\<rparr>"

section \<open>The application (App.tsx)\<close>

text \<open>
  An utterance is the text to speak, the voice chosen for it (the index of a voice of
  \<^verbatim>\<open>getVoices()\<close>, taken as an input: the outcome of the three searches), and the
  message id its \<^verbatim>\<open>onstart\<close> callback closes over. Its pitch and rate are the
  floating-point constant 1.1 and are left out. What the handlers ask of
  \<^verbatim>\<open>window.speechSynthesis\<close> is recorded as a list of calls.
\<close>

record utterance =
  utt_text :: jsstring
  utt_voice :: "nat option"
  utt_messageId :: jsstring

datatype synth_cmd = Cancel | Speak utterance

record app_state =
  messages :: "message list"
  isLoading :: bool
  error :: "jsstring option"
  apiKeyMissing :: bool
  speechSynthesisSupported :: bool
  speechRecognitionSupported :: bool
  currentlySpeakingMessageId :: "jsstring option"
  utteranceRef :: "utterance option"

text \<open>The state and the ref of the composer (ChatInput).\<close>

record chat_input =
  inputValue :: jsstring
  isRecording :: bool
  latestFinalTranscriptRef :: jsstring

datatype recog_cmd = RecStart | RecStop

text \<open>
  A call of the async \<^verbatim>\<open>handleSendMessage\<close> that has not returned yet: its local
  variables, and what it is waiting for (the outcome of the awaited promise, then the rest
  of the stream); \<open>None\<close> once it has returned.
\<close>

record send_task =
  aiMessageId :: jsstring
  currentAiResponseText :: jsstring
  pending :: "(thrown + stream) option"

record world =
  app :: app_state
  svc :: service
  input :: chat_input
  tasks :: "send_task list"
  synth_log :: "synth_cmd list"
  api_log :: "jsstring list"
  recog_log :: "recog_cmd list"
  retry_timers :: nat

definition setMessages :: "(message list \<Rightarrow> message list) \<Rightarrow> world \<Rightarrow> world" where
  "setMessages f w = w\<lparr>app := (app w)\<lparr>messages := f (messages (app w))\<rparr>\<rparr>"

definition setIsLoading :: "bool \<Rightarrow> world \<Rightarrow> world" where
  "setIsLoading b w = w\<lparr>app := (app w)\<lparr>isLoading := b\<rparr>\<rparr>"

definition setError :: "jsstring option \<Rightarrow> world \<Rightarrow> world" where
  "setError e w = w\<lparr>app := (app w)\<lparr>error := e\<rparr>\<rparr>"

definition setCurrentlySpeakingMessageId :: "jsstring option \<Rightarrow> world \<Rightarrow> world" where
  "setCurrentlySpeakingMessageId v w = w\<lparr>app := (app w)\<lparr>currentlySpeakingMessageId := v\<rparr>\<rparr>"

definition synth_call :: "synth_cmd \<Rightarrow> world \<Rightarrow> world" where
  "synth_call c w = w\<lparr>synth_log := synth_log w @ [c]\<rparr>"

text \<open>
  The state before the mount effect has run. \<^verbatim>\<open>window.speechSynthesis\<close> is read by the
  handlers as an input of type \<open>bool option\<close>: \<open>None\<close> when the browser has no such object,
  otherwise its \<^verbatim>\<open>speaking\<close> flag.
\<close>

definition initial_world :: world where
  "initial_world =
     \<lparr>app = \<lparr>messages = [], isLoading = False, error = None, apiKeyMissing = False,
             speechSynthesisSupported = False, speechRecognitionSupported = False,
             currentlySpeakingMessageId = None, utteranceRef = None\<rparr>,
      svc = \<lparr>chat = None, ai = None\<rparr>,
      input = \<lparr>inputValue = [], isRecording = False, latestFinalTranscriptRef = []\<rparr>,
      tasks = [], synth_log = [], api_log = [], recog_log = [], retry_timers = 0\<rparr>"

text \<open>The two clock readings of a greeting: \<^verbatim>\<open>Date.now()\<close> for the id, \<^verbatim>\<open>new Date()\<close>.\<close>

record greet_clock =
  now_greet :: int
  date_greet :: int

definition init_greeting_text :: jsstring where
  "init_greeting_text =
     lit ''Yo! What's up? Ready to cook up something cool, or just wanna chat about the latest in tech? ''
     @ [55358, 56785, 8205, 55357, 56507]
     @ lit '' Let me know what's on your mind!''"

definition reset_greeting_text :: jsstring where
  "reset_greeting_text =
     lit ''Alright, fresh start! What's on your mind now? Let's build something awesome or explore some new tech! ''
     @ [55357, 56960]"

definition mount :: "jsstring option \<Rightarrow> bool \<Rightarrow> bool \<Rightarrow> greet_clock \<Rightarrow> world \<Rightarrow> world" where
  "mount key hasSynthesis hasRecognition clk w =
     (if key = None \<or> key = Some []
      then setError (Some (lit ''API_KEY environment variable is not set. This application requires an API key to function.''))
             (w\<lparr>app := (app w)\<lparr>apiKeyMissing := True\<rparr>\<rparr>)
      else
        let w1 = w\<lparr>app := (app w)\<lparr>speechSynthesisSupported := hasSynthesis,
                                   speechRecognitionSupported := hasRecognition\<rparr>\<rparr>;
            initialGreeting =
              \<lparr>msg_id = lit ''init-greet-'' @ number_toString (now_greet clk),
               msg_text = init_greeting_text, msg_sender = AI, msg_timestamp = date_greet clk\<rparr>
        in setMessages (\<lambda>_. [initialGreeting]) w1)"

subsection \<open>handleSendMessage\<close>

text \<open>The four clock readings of one send, in the order the source takes them.\<close>

record send_clock =
  now_user :: int
  date_user :: int
  now_ai :: int
  date_ai :: int

text \<open>
  The synchronous part, up to the \<^verbatim>\<open>await\<close>: the guard, the cancellation of a running
  utterance, the two appended messages and the call of the service. The call stays
  suspended as a task.
\<close>

definition handleSendMessage_begin ::
  "send_clock \<Rightarrow> jsstring \<Rightarrow> bool option \<Rightarrow> backend \<Rightarrow> world \<Rightarrow> world" where
  "handleSendMessage_begin clk txt speechSynthesis env w =
     (if apiKeyMissing (app w)
      then setError (Some (lit ''Cannot send message: API_KEY is missing.'')) w
      else
        let w1 = (if speechSynthesis = Some True
                  then setCurrentlySpeakingMessageId None (synth_call Cancel w) else w);
            userMessage =
              \<lparr>msg_id = number_toString (now_user clk) @ lit ''-user'',
               msg_text = txt, msg_sender = USER, msg_timestamp = date_user clk\<rparr>;
            w2 = setError None (setIsLoading True (setMessages (\<lambda>prevMessages. prevMessages @ [userMessage]) w1));
            aiId = number_toString (now_ai clk) @ lit ''-ai'';
            w3 = setMessages (\<lambda>prevMessages. prevMessages @
                   [\<lparr>msg_id = aiId, msg_text = [], msg_sender = AI, msg_timestamp = date_ai clk\<rparr>]) w2
        in case sendMessageToTejaswiStream txt env (svc w3) of
             (res, s', calls) \<Rightarrow>
               w3\<lparr>svc := s', api_log := api_log w3 @ calls,
                  tasks := tasks w3 @
                    [\<lparr>aiMessageId = aiId, currentAiResponseText = [], pending = Some res\<rparr>]\<rparr>)"

text \<open>One iteration of the \<^verbatim>\<open>for await\<close> loop.\<close>

definition on_chunk :: "chunk \<Rightarrow> send_task \<Rightarrow> world \<Rightarrow> send_task \<times> world" where
  "on_chunk c t w =
     (case c of
        None \<Rightarrow> (t, w)
      | Some chunkText \<Rightarrow>
          if truthy chunkText
          then let cur = currentAiResponseText t @ chunkText
               in (t\<lparr>currentAiResponseText := cur\<rparr>,
                   setMessages (map (\<lambda>msg. if msg_id msg = aiMessageId t
                                            then msg\<lparr>msg_text := cur\<rparr> else msg)) w)
          else (t, w))"

text \<open>The \<^verbatim>\<open>catch\<close> block and the \<^verbatim>\<open>finally\<close> block.\<close>

definition on_catch :: "thrown \<Rightarrow> send_task \<Rightarrow> world \<Rightarrow> world" where
  "on_catch e t w =
     (let errorMessage = (case e of Error m \<Rightarrow> m
                          | NonError \<Rightarrow> lit ''An unknown error occurred with the AI service.'');
          w1 = setError (Some (lit ''Tejaswi seems to be having a moment... '' @ [55358, 56623]
                               @ lit '' ('' @ errorMessage @ lit '')'')) w
      in setMessages (map (\<lambda>msg. if msg_id msg = aiMessageId t
                                  then msg\<lparr>msg_text := lit ''Sorry, I hit a snag! Error: '' @ errorMessage\<rparr>
                                  else msg)) w1)"

definition on_finally :: "world \<Rightarrow> world" where
  "on_finally w = setIsLoading False w"

text \<open>
  One resumption of a suspended call: a rejected promise or a throwing iteration runs
  \<^verbatim>\<open>catch\<close> and \<^verbatim>\<open>finally\<close>, a chunk runs the loop body, the end of the stream runs
  \<^verbatim>\<open>finally\<close>.
\<close>

definition resume :: "send_task \<Rightarrow> world \<Rightarrow> send_task \<times> world" where
  "resume t w =
     (case pending t of
        None \<Rightarrow> (t, w)
      | Some (Inl e) \<Rightarrow> (t\<lparr>pending := None\<rparr>, on_finally (on_catch e t w))
      | Some (Inr (Stream [] None)) \<Rightarrow> (t\<lparr>pending := None\<rparr>, on_finally w)
      | Some (Inr (Stream [] (Some e))) \<Rightarrow> (t\<lparr>pending := None\<rparr>, on_finally (on_catch e t w))
      | Some (Inr (Stream (c # rest) err)) \<Rightarrow>
          (case on_chunk c t w of
             (t', w') \<Rightarrow> (t'\<lparr>pending := Some (Inr (Stream rest err))\<rparr>, w')))"

definition advance :: "nat \<Rightarrow> world \<Rightarrow> world" where
  "advance i w =
     (if i < length (tasks w)
      then (case resume (tasks w ! i) w of (t', w') \<Rightarrow> w'\<lparr>tasks := (tasks w')[i := t']\<rparr>)
      else w)"

text \<open>How many resumptions a suspended call still needs.\<close>

definition steps_left :: "send_task \<Rightarrow> nat" where
  "steps_left t =
     (case pending t of
        None \<Rightarrow> 0
      | Some (Inl _) \<Rightarrow> 1
      | Some (Inr (Stream cs _)) \<Rightarrow> Suc (length cs))"

text \<open>
  \<^verbatim>\<open>handleSendMessage\<close> run without interruption: the synchronous part, then the new call
  resumed until it returns.
\<close>

definition handleSendMessage ::
  "send_clock \<Rightarrow> jsstring \<Rightarrow> bool option \<Rightarrow> backend \<Rightarrow> world \<Rightarrow> world" where
  "handleSendMessage clk txt speechSynthesis env w =
     (let w' = handleSendMessage_begin clk txt speechSynthesis env w;
          i = length (tasks w)
      in if i < length (tasks w') then (advance i ^^ steps_left (tasks w' ! i)) w' else w')"

subsection \<open>handleResetConversation\<close>

definition handleResetConversation :: "greet_clock \<Rightarrow> bool option \<Rightarrow> world \<Rightarrow> world" where
  "handleResetConversation clk speechSynthesis w =
     (let w1 = (if speechSynthesis = Some True
                then setCurrentlySpeakingMessageId None (synth_call Cancel w) else w);
          w2 = w1\<lparr>svc := resetChatSession (svc w1)\<rparr>;
          w3 = setIsLoading False (setError None (setMessages (\<lambda>_. []) w2));
          initialGreeting =
            \<lparr>msg_id = lit ''reset-greet-'' @ number_toString (now_greet clk),
             msg_text = reset_greeting_text, msg_sender = AI, msg_timestamp = date_greet clk\<rparr>
      in setMessages (\<lambda>_. [initialGreeting]) w3)"

subsection \<open>Speech synthesis handlers\<close>

text \<open>
  A handler that reads a property of an undefined object throws; the state it leaves is
  the state at the throw.
\<close>

datatype 'a outcome = Returns 'a | Throws 'a

fun state_of :: "'a outcome \<Rightarrow> 'a" where
  "state_of (Returns x) = x"
| "state_of (Throws x) = x"

definition handlePlaySpeech ::
  "jsstring \<Rightarrow> jsstring \<Rightarrow> bool option \<Rightarrow> nat option \<Rightarrow> world \<Rightarrow> world outcome" where
  "handlePlaySpeech txt messageId speechSynthesis tejaswiVoice w =
     (if \<not> speechSynthesisSupported (app w) \<or> \<not> truthy txt then Returns w
      else
        case speechSynthesis of
          None \<Rightarrow> Throws w
        | Some speaking \<Rightarrow>
            let w1 = (if speaking then synth_call Cancel w else w)
            in if speaking \<and> currentlySpeakingMessageId (app w) = Some messageId
               then Returns (setCurrentlySpeakingMessageId None w1)
               else
                 let u = \<lparr>utt_text = txt, utt_voice = tejaswiVoice, utt_messageId = messageId\<rparr>
                 in Returns (synth_call (Speak u) (w1\<lparr>app := (app w1)\<lparr>utteranceRef := Some u\<rparr>\<rparr>)))"

text \<open>The callbacks installed on an utterance.\<close>

definition utterance_onstart :: "utterance \<Rightarrow> world \<Rightarrow> world" where
  "utterance_onstart u w = setCurrentlySpeakingMessageId (Some (utt_messageId u)) w"

definition utterance_onend :: "world \<Rightarrow> world" where
  "utterance_onend w = setCurrentlySpeakingMessageId None w"

definition utterance_onerror :: "world \<Rightarrow> world" where
  "utterance_onerror w =
     setCurrentlySpeakingMessageId None
       (setError (Some (lit ''Oops, couldn't play that message. '' @ [55357, 56876])) w)"

definition handleStopSpeech :: "bool option \<Rightarrow> world \<Rightarrow> world outcome" where
  "handleStopSpeech speechSynthesis w =
     (if speechSynthesisSupported (app w)
      then (case speechSynthesis of
              None \<Rightarrow> Throws w
            | Some speaking \<Rightarrow>
                if speaking then Returns (setCurrentlySpeakingMessageId None (synth_call Cancel w))
                else Returns w)
      else Returns w)"

definition handleSpeechError :: "jsstring \<Rightarrow> world \<Rightarrow> world" where
  "handleSpeechError message w = setError (Some message) w"

section \<open>A message of the history (ChatHistory.tsx, ChatMessage.tsx)\<close>

text \<open>The prop ChatHistory computes for each message, and the condition of the speaker button.\<close>

definition isCurrentlySpeaking :: "message \<Rightarrow> world \<Rightarrow> bool" where
  "isCurrentlySpeaking m w \<longleftrightarrow> currentlySpeakingMessageId (app w) = Some (msg_id m)"

definition speaker_button_shown :: "message \<Rightarrow> world \<Rightarrow> bool" where
  "speaker_button_shown m w \<longleftrightarrow>
     msg_sender m = AI \<and> speechSynthesisSupported (app w) \<and> truthy (msg_text m)"

definition handleSpeakerClick :: "message \<Rightarrow> bool option \<Rightarrow> nat option \<Rightarrow> world \<Rightarrow> world outcome" where
  "handleSpeakerClick m speechSynthesis tejaswiVoice w =
     (if isCurrentlySpeaking m w then handleStopSpeech speechSynthesis w
      else handlePlaySpeech (msg_text m) (msg_id m) speechSynthesis tejaswiVoice w)"

section \<open>The composer (ChatInput)\<close>

text \<open>
  The handlers of the component work on its own state; what they call on their props and on
  the recognition object is their second result: the text passed to
  \<^verbatim>\<open>onSendMessage\<close> if it is called, or the list of the other calls in order.
\<close>

record SpeechRecognitionResult =
  isFinal :: bool
  alternatives :: "jsstring list"

record SpeechRecognitionEvent =
  resultIndex :: nat
  results :: "SpeechRecognitionResult list"

datatype SpeechRecognitionErrorCode =
  no_speech | aborted | audio_capture | network | not_allowed | service_not_allowed |
  bad_grammar | language_not_supported

fun code_name :: "SpeechRecognitionErrorCode \<Rightarrow> jsstring" where
  "code_name no_speech = lit ''no-speech''"
| "code_name aborted = lit ''aborted''"
| "code_name audio_capture = lit ''audio-capture''"
| "code_name network = lit ''network''"
| "code_name not_allowed = lit ''not-allowed''"
| "code_name service_not_allowed = lit ''service-not-allowed''"
| "code_name bad_grammar = lit ''bad-grammar''"
| "code_name language_not_supported = lit ''language-not-supported''"

record SpeechRecognitionErrorEvent =
  err_code :: SpeechRecognitionErrorCode
  err_message :: jsstring

datatype input_call = OnSpeechError jsstring | Recognition recog_cmd | SetTimeoutRetry

text \<open>
  The loop of \<^verbatim>\<open>onresult\<close> over the results from \<^verbatim>\<open>resultIndex\<close> on: the
  transcripts of the first alternatives, concatenated; \<open>None\<close> when a result has no
  alternative (reading \<^verbatim>\<open>transcript\<close> of undefined throws).
\<close>

fun transcript_from :: "SpeechRecognitionResult list \<Rightarrow> jsstring option" where
  "transcript_from [] = Some []"
| "transcript_from (r # rs) =
     (case alternatives r of
        [] \<Rightarrow> None
      | a # _ \<Rightarrow> (case transcript_from rs of None \<Rightarrow> None | Some t \<Rightarrow> Some (a @ t)))"

definition onresult :: "SpeechRecognitionEvent \<Rightarrow> chat_input \<Rightarrow> chat_input outcome" where
  "onresult ev ci =
     (case transcript_from (drop (resultIndex ev) (results ev)) of
        None \<Rightarrow> Throws ci
      | Some currentTranscript \<Rightarrow>
          let ci1 = ci\<lparr>inputValue := currentTranscript\<rparr>
          in if results ev = [] then Throws ci1
             else if isFinal (last (results ev))
             then Returns (ci1\<lparr>latestFinalTranscriptRef := trim currentTranscript\<rparr>)
             else Returns ci1)"

definition onend :: "chat_input \<Rightarrow> chat_input \<times> jsstring option" where
  "onend ci =
     (let ci1 = ci\<lparr>isRecording := False\<rparr>;
          textToSend = latestFinalTranscriptRef ci1
      in if truthy textToSend
         then (ci1\<lparr>inputValue := [], latestFinalTranscriptRef := []\<rparr>, Some textToSend)
         else (ci1, None))"

definition onerror :: "SpeechRecognitionErrorEvent \<Rightarrow> chat_input \<Rightarrow> chat_input \<times> input_call list" where
  "onerror ev ci =
     (let errorMessage =
            (case err_code ev of
               no_speech \<Rightarrow> lit ''Didn't catch that, could you try again? '' @ [55358, 56596]
             | audio_capture \<Rightarrow>
                 lit ''Hmm, couldn't access your microphone. Check permissions? '' @ [55356, 57252]
             | not_allowed \<Rightarrow>
                 lit ''Looks like microphone access was denied. You can change this in browser settings if you want to use voice input! ''
                 @ [55357, 56397]
             | _ \<Rightarrow> lit ''Oops, voice input ran into a snag: '' @ code_name (err_code ev)
                    @ lit ''. '' @ err_message ev)
      in (ci\<lparr>isRecording := False, latestFinalTranscriptRef := []\<rparr>, [OnSpeechError errorMessage]))"

text \<open>\<^verbatim>\<open>handleSubmit\<close>, also reached by the Enter key; its first argument is the prop \<^verbatim>\<open>isLoading\<close>.\<close>

definition handleSubmit :: "bool \<Rightarrow> chat_input \<Rightarrow> chat_input \<times> jsstring option" where
  "handleSubmit loading ci =
     (if truthy (trim (inputValue ci)) \<and> \<not> loading
      then (ci\<lparr>inputValue := [], latestFinalTranscriptRef := []\<rparr>, Some (trim (inputValue ci)))
      else (ci, None))"

text \<open>
  \<^verbatim>\<open>recognition.start()\<close> returns or throws an exception with a name. The first argument
  of \<^verbatim>\<open>toggleRecording\<close> says whether the recognition object exists, the second is the
  prop \<^verbatim>\<open>speechRecognitionSupported\<close>.
\<close>

datatype start_outcome = Started | StartThrows jsstring

definition toggleRecording ::
  "bool \<Rightarrow> bool \<Rightarrow> start_outcome \<Rightarrow> chat_input \<Rightarrow> chat_input \<times> input_call list" where
  "toggleRecording recognition supported start ci =
     (if \<not> recognition \<or> \<not> supported
      then (ci, [OnSpeechError (lit ''Sorry, voice input isn't available on your browser. '' @ [55357, 56853])])
      else if isRecording ci then (ci, [Recognition RecStop])
      else
        let ci1 = ci\<lparr>inputValue := [], latestFinalTranscriptRef := []\<rparr>
        in case start of
             Started \<Rightarrow> (ci1\<lparr>isRecording := True\<rparr>, [Recognition RecStart])
           | StartThrows name \<Rightarrow>
               if name = lit ''NotAllowedError'' \<or> name = lit ''SecurityError''
               then (ci1\<lparr>isRecording := False\<rparr>,
                     [Recognition RecStart,
                      OnSpeechError (lit ''Microphone access denied. Please enable it in your browser settings. ''
                                     @ [55356, 57252])])
               else if name = lit ''InvalidStateError''
               then (ci1, [Recognition RecStart, Recognition RecStop, SetTimeoutRetry])
               else (ci1\<lparr>isRecording := False\<rparr>,
                     [Recognition RecStart,
                      OnSpeechError (lit ''Couldn't start voice recording. Maybe try again?'')]))"

text \<open>The callback of the retry timer.\<close>

definition retryStart :: "start_outcome \<Rightarrow> chat_input \<Rightarrow> chat_input \<times> input_call list" where
  "retryStart start ci =
     (let ci1 = ci\<lparr>inputValue := [], latestFinalTranscriptRef := []\<rparr>
      in case start of
           Started \<Rightarrow> (ci1\<lparr>isRecording := True\<rparr>, [Recognition RecStart])
         | StartThrows _ \<Rightarrow>
             (ci1\<lparr>isRecording := False\<rparr>,
              [Recognition RecStart,
               OnSpeechError (lit ''Still couldn't start voice recording. Try refreshing? '' @ [55358, 56596])]))"

section \<open>The page as a transition system\<close>

text \<open>
  Each event is one callback of the page run to its end, with what it reads from the
  environment: a keystroke in the composer, a submit, the microphone button, the retry
  timer, the three recognition callbacks, one resumption of a suspended send, the New Chat
  button, a click on the speaker button of the message at an index, and the three
  callbacks of an utterance (named by the position of its \<^verbatim>\<open>speak\<close> call).
\<close>

datatype event =
    Typing jsstring
  | SubmitForm send_clock "bool option" backend
  | ToggleRecording bool start_outcome
  | RetryTimer start_outcome
  | RecognitionResult SpeechRecognitionEvent
  | RecognitionEnd send_clock "bool option" backend
  | RecognitionError SpeechRecognitionErrorEvent
  | StreamProgress nat
  | NewChat greet_clock "bool option"
  | SpeakerClick nat "bool option" "nat option"
  | UtteranceStart nat
  | UtteranceEnd nat
  | UtteranceError nat

fun notify :: "input_call \<Rightarrow> world \<Rightarrow> world" where
  "notify (OnSpeechError m) w = handleSpeechError m w"
| "notify (Recognition c) w = w\<lparr>recog_log := recog_log w @ [c]\<rparr>"
| "notify SetTimeoutRetry w = w\<lparr>retry_timers := Suc (retry_timers w)\<rparr>"

definition on_utterance :: "nat \<Rightarrow> (utterance \<Rightarrow> world \<Rightarrow> world) \<Rightarrow> world \<Rightarrow> world" where
  "on_utterance k callback w =
     (if k < length (synth_log w)
      then (case synth_log w ! k of Speak u \<Rightarrow> callback u w | Cancel \<Rightarrow> w)
      else w)"

fun step :: "event \<Rightarrow> world \<Rightarrow> world" where
  "step (Typing v) w = w\<lparr>input := (input w)\<lparr>inputValue := v\<rparr>\<rparr>"
| "step (SubmitForm clk ss env) w =
     (case handleSubmit (isLoading (app w)) (input w) of
        (ci, None) \<Rightarrow> w\<lparr>input := ci\<rparr>
      | (ci, Some t) \<Rightarrow> handleSendMessage_begin clk t ss env (w\<lparr>input := ci\<rparr>))"
| "step (ToggleRecording recognition start) w =
     (case toggleRecording recognition (speechRecognitionSupported (app w)) start (input w) of
        (ci, calls) \<Rightarrow> fold notify calls (w\<lparr>input := ci\<rparr>))"
| "step (RetryTimer start) w =
     (if retry_timers w = 0 then w
      else case retryStart start (input w) of
             (ci, calls) \<Rightarrow> fold notify calls (w\<lparr>input := ci, retry_timers := retry_timers w - 1\<rparr>))"
| "step (RecognitionResult ev) w = w\<lparr>input := state_of (onresult ev (input w))\<rparr>"
| "step (RecognitionEnd clk ss env) w =
     (case onend (input w) of
        (ci, None) \<Rightarrow> w\<lparr>input := ci\<rparr>
      | (ci, Some t) \<Rightarrow> handleSendMessage_begin clk t ss env (w\<lparr>input := ci\<rparr>))"
| "step (RecognitionError ev) w =
     (case onerror ev (input w) of (ci, calls) \<Rightarrow> fold notify calls (w\<lparr>input := ci\<rparr>))"
| "step (StreamProgress i) w = advance i w"
| "step (NewChat clk ss) w = handleResetConversation clk ss w"
| "step (SpeakerClick j ss voice) w =
     (if j < length (messages (app w)) \<and> speaker_button_shown (messages (app w) ! j) w
      then state_of (handleSpeakerClick (messages (app w) ! j) ss voice w)
      else w)"
| "step (UtteranceStart k) w = on_utterance k utterance_onstart w"
| "step (UtteranceEnd k) w = on_utterance k (\<lambda>_. utterance_onend) w"
| "step (UtteranceError k) w = on_utterance k (\<lambda>_. utterance_onerror) w"

definition run :: "event list \<Rightarrow> world \<Rightarrow> world" where
  "run evs w = fold step evs w"

section \<open>Reading the claims\<close>


text \<open>A recognition event whose last result is final, and so sets the transcript to submit.\<close>

definition finalizes :: "event \<Rightarrow> bool" where
  "finalizes e =
     (case e of RecognitionResult ev \<Rightarrow> results ev \<noteq> [] \<and> isFinal (last (results ev)) | _ \<Rightarrow> False)"

text \<open>The ids of the messages that the history renders as currently speaking.\<close>

definition speaking_ids :: "world \<Rightarrow> jsstring list" where
  "speaking_ids w = remdups (map msg_id (filter (\<lambda>m. isCurrentlySpeaking m w) (messages (app w))))"

text \<open>
  The ids of the transcript in order; the clock readings an event takes when, in a given
  state, it passes the guards and appends the two messages of a send; the readings taken
  along a sequence of events; the two ids a send builds from its readings, and the two
  messages it appends.
\<close>

definition transcript_ids :: "world \<Rightarrow> jsstring list" where
  "transcript_ids w = map msg_id (messages (app w))"

definition sending :: "event \<Rightarrow> world \<Rightarrow> send_clock list" where
  "sending e w =
     (case e of
        SubmitForm clk _ _ \<Rightarrow>
          if snd (handleSubmit (isLoading (app w)) (input w)) \<noteq> None \<and> \<not> apiKeyMissing (app w)
          then [clk] else []
      | RecognitionEnd clk _ _ \<Rightarrow>
          if snd (onend (input w)) \<noteq> None \<and> \<not> apiKeyMissing (app w) then [clk] else []
      | _ \<Rightarrow> [])"

fun readings :: "event list \<Rightarrow> world \<Rightarrow> send_clock list" where
  "readings [] w = []"
| "readings (e # es) w = sending e w @ readings es (step e w)"

definition user_id :: "send_clock \<Rightarrow> jsstring" where
  "user_id clk = number_toString (now_user clk) @ lit ''-user''"

definition ai_id :: "send_clock \<Rightarrow> jsstring" where
  "ai_id clk = number_toString (now_ai clk) @ lit ''-ai''"

definition user_message :: "send_clock \<Rightarrow> jsstring \<Rightarrow> message" where
  "user_message clk txt =
     \<lparr>msg_id = user_id clk, msg_text = txt, msg_sender = USER, msg_timestamp = date_user clk\<rparr>"

definition ai_placeholder :: "send_clock \<Rightarrow> message" where
  "ai_placeholder clk =
     \<lparr>msg_id = ai_id clk, msg_text = [], msg_sender = AI, msg_timestamp = date_ai clk\<rparr>"

text \<open>
  The message the \<^verbatim>\<open>catch\<close> block extracts from a thrown value, the notice it writes
  into the assistant message, the banner it sets, and the rewriting of the text of the
  messages with a given id.
\<close>

definition errorMessage_of :: "thrown \<Rightarrow> jsstring" where
  "errorMessage_of e =
     (case e of Error m \<Rightarrow> m | NonError \<Rightarrow> lit ''An unknown error occurred with the AI service.'')"

definition failure_notice :: "thrown \<Rightarrow> jsstring" where
  "failure_notice e = lit ''Sorry, I hit a snag! Error: '' @ errorMessage_of e"

definition failure_banner :: "thrown \<Rightarrow> jsstring" where
  "failure_banner e =
     lit ''Tejaswi seems to be having a moment... '' @ [55358, 56623] @ lit '' ('' @ errorMessage_of e @ lit '')''"

definition set_text_of :: "jsstring \<Rightarrow> jsstring \<Rightarrow> message list \<Rightarrow> message list" where
  "set_text_of a v ms = map (\<lambda>msg. if msg_id msg = a then msg\<lparr>msg_text := v\<rparr> else msg) ms"








subsection \<open>Invariants used in the proofs\<close>

text \<open>
  An id that ends in a digit, as the ids of the greetings do; a transcript whose ids are
  distinct and are greetings or ids built from a given set of clock readings; and two
  states that differ at most in the text of the messages with a given id.
\<close>

definition greet_like :: "jsstring \<Rightarrow> bool" where
  "greet_like i \<longleftrightarrow> i \<noteq> [] \<and> 48 \<le> last i \<and> last i \<le> 57"

definition ids_ok :: "send_clock set \<Rightarrow> jsstring list \<Rightarrow> bool" where
  "ids_ok S xs \<longleftrightarrow>
     distinct xs \<and> (\<forall>i\<in>set xs. greet_like i \<or> (\<exists>c\<in>S. i = user_id c \<or> i = ai_id c))"

definition same_but_text :: "jsstring \<Rightarrow> world \<Rightarrow> world \<Rightarrow> bool" where
  "same_but_text a w w' \<longleftrightarrow>
     (\<forall>v. set_text_of a v (messages (app w')) = set_text_of a v (messages (app w))) \<and>
     error (app w') = error (app w) \<and> isLoading (app w') = isLoading (app w) \<and>
     apiKeyMissing (app w') = apiKeyMissing (app w) \<and> api_log w' = api_log w \<and>
     length (tasks w') = length (tasks w)"

subsection \<open>Concrete inputs\<close>

definition example_stream :: stream where
  "example_stream = Stream [Some (lit ''Hi''), None, Some [], Some (lit ''!'')] None"

definition example_backend :: "(thrown + stream) \<Rightarrow> backend" where
  "example_backend r =
     \<lparr>API_KEY = Some (lit ''key''), newGoogleGenAI = (\<lambda>k. Inr (GoogleGenAI k)),
      chats_create = (\<lambda>a m. Inr (Chat m)), sendMessageStream = (\<lambda>c m. r)\<rparr>"

definition example_clock :: "int \<Rightarrow> send_clock" where
  "example_clock n = \<lparr>now_user = n, date_user = n, now_ai = n, date_ai = n\<rparr>"

definition example_world :: world where
  "example_world = mount (Some (lit ''key'')) True True \<lparr>now_greet = 5, date_greet = 5\<rparr> initial_world"

definition example_message :: message where
  "example_message = \<lparr>msg_id = lit ''init-greet-5'', msg_text = lit ''Yo!'', msg_sender = AI, msg_timestamp = 5\<rparr>"

definition speaking_world :: world where
  "speaking_world =
     initial_world\<lparr>app := (app initial_world)\<lparr>messages := [example_message],
        speechSynthesisSupported := True,
        currentlySpeakingMessageId := Some (msg_id example_message)\<rparr>,
        synth_log := [Speak \<lparr>utt_text = lit ''Yo!'', utt_voice = None, utt_messageId = msg_id example_message\<rparr>]\<rparr>"

definition blank_result :: SpeechRecognitionEvent where
  "blank_result = \<lparr>resultIndex = 0, results = [\<lparr>isFinal = True, alternatives = [[32, 9, 160]]\<rparr>]\<rparr>"

definition interim_result :: SpeechRecognitionEvent where
  "interim_result = \<lparr>resultIndex = 0, results = [\<lparr>isFinal = False, alternatives = [lit ''hel'']\<rparr>]\<rparr>"

definition final_b :: SpeechRecognitionEvent where
  "final_b = \<lparr>resultIndex = 0, results = [\<lparr>isFinal = True, alternatives = [[98]]\<rparr>]\<rparr>"

definition overlapping_sends :: "send_clock \<Rightarrow> send_clock \<Rightarrow> stream \<Rightarrow> event list" where
  "overlapping_sends c1 c2 s =
     [ToggleRecording True Started, Typing [97],
      SubmitForm c1 None (example_backend (Inr s)),
      RecognitionResult final_b,
      RecognitionEnd c2 None (example_backend (Inr s))]"



section \<open>Properties\<close>

lemmas setters =
  setMessages_def setIsLoading_def setError_def setCurrentlySpeakingMessageId_def synth_call_def

subsection \<open>The streaming loop\<close>






subsection \<open>Reset\<close>

text \<open>
  Claim C2. In every state, and whatever the clock and the speech synthesis say,
  \<^verbatim>\<open>handleResetConversation\<close> leaves a transcript of exactly one message, the reset
  greeting with sender AI, no error banner, and the loading flag cleared.
\<close>

theorem reset_leaves_one_greeting:
  "messages (app (handleResetConversation clk ss w)) =
     [\<lparr>msg_id = lit ''reset-greet-'' @ number_toString (now_greet clk),
       msg_text = reset_greeting_text, msg_sender = AI, msg_timestamp = date_greet clk\<rparr>] \<and>
   error (app (handleResetConversation clk ss w)) = None \<and>
   isLoading (app (handleResetConversation clk ss w)) = False"
  by (simp add: handleResetConversation_def setters Let_def)

subsection \<open>Initialization failures of the service\<close>

text \<open>
  Claim C10. When \<^verbatim>\<open>initializeChat\<close> throws \<open>e\<close>, the promise of
  \<^verbatim>\<open>sendMessageToTejaswiStream\<close> is not rejected: it resolves to a stream that yields
  nothing and throws \<open>e\<close> at its first iteration. When the handle is absent after the
  initialization, it resolves to such a stream throwing the "Chat not initialized" error.
\<close>

theorem init_failure_is_a_throwing_stream:
  "(fst (initializeChat env s) = Inl e \<longrightarrow>
      fst (sendMessageToTejaswiStream userMessage env s) = Inr (Stream [] (Some e))) \<and>
   (chat s = None \<longrightarrow>
      fst (send_after_init userMessage env s) = Inr (Stream [] (Some noChatError)))"
  by (auto simp: sendMessageToTejaswiStream_def send_after_init_def errorStream_def
      split: prod.splits sum.splits)

theorem init_failure_is_a_throwing_stream_witness:
  "fst (sendMessageToTejaswiStream (lit ''yo'')
          ((example_backend (Inr example_stream))\<lparr>API_KEY := None\<rparr>) \<lparr>chat = None, ai = None\<rparr>)
     = Inr (Stream [] (Some (Error
         (lit ''API_KEY environment variable not set. Cannot initialize GoogleGenAI.'')))) \<and>
   fst (send_after_init (lit ''yo'')
          ((example_backend (Inr example_stream))\<lparr>API_KEY := None\<rparr>) \<lparr>chat = None, ai = None\<rparr>)
     = Inr (Stream [] (Some noChatError))"
proof -
  have h: "fst (initializeChat ((example_backend (Inr example_stream))\<lparr>API_KEY := None\<rparr>)
                  \<lparr>chat = None, ai = None\<rparr>)
           = Inl (Error (lit ''API_KEY environment variable not set. Cannot initialize GoogleGenAI.''))"
    by (simp add: initializeChat_def getAiInstance_def example_backend_def)
  from init_failure_is_a_throwing_stream
         [of "(example_backend (Inr example_stream))\<lparr>API_KEY := None\<rparr>" "\<lparr>chat = None, ai = None\<rparr>"
             "Error (lit ''API_KEY environment variable not set. Cannot initialize GoogleGenAI.'')"
             "lit ''yo''"]
    h
  show ?thesis by simp
qed

subsection \<open>Blank input\<close>

lemma trim_blank: "\<forall>c\<in>set s. isWhiteSpace c \<Longrightarrow> trim s = []"
proof -
  assume "\<forall>c\<in>set s. isWhiteSpace c"
  then have d: "dropWhile isWhiteSpace s = []" by simp
  show ?thesis unfolding trim_def d by simp
qed

text \<open>
  Claim C3. When the text is empty or made of whitespace only, the submit path calls
  \<^verbatim>\<open>onSendMessage\<close> with nothing and leaves the whole state as it is; and when such a
  text is the final transcript of a recognition event, the end of the recognition calls
  \<^verbatim>\<open>onSendMessage\<close> with nothing either: the transcript, the suspended sends and the
  requests stay as they were, so no user message is created.
\<close>

theorem blank_input_creates_no_user_message:
  assumes "\<forall>c\<in>set s. isWhiteSpace c"
  shows "(inputValue (input w) = s \<longrightarrow>
            snd (handleSubmit (isLoading (app w)) (input w)) = None \<and>
            step (SubmitForm clk ss env) w = w) \<and>
         (results ev \<noteq> [] \<and> isFinal (last (results ev)) \<and>
          transcript_from (drop (resultIndex ev) (results ev)) = Some s \<longrightarrow>
            snd (onend (state_of (onresult ev (input w)))) = None \<and>
            app (step (RecognitionEnd clk ss env) (step (RecognitionResult ev) w)) = app w \<and>
            tasks (step (RecognitionEnd clk ss env) (step (RecognitionResult ev) w)) = tasks w \<and>
            api_log (step (RecognitionEnd clk ss env) (step (RecognitionResult ev) w)) = api_log w)"
  using trim_blank[OF assms]
  by (auto simp: handleSubmit_def onend_def onresult_def truthy_def Let_def)

theorem blank_input_creates_no_user_message_witness:
  "step (SubmitForm (example_clock 7) None (example_backend (Inr example_stream)))
        (step (Typing [32, 9, 160]) initial_world)
     = step (Typing [32, 9, 160]) initial_world \<and>
   app (step (RecognitionEnd (example_clock 7) None (example_backend (Inr example_stream)))
          (step (RecognitionResult blank_result) initial_world))
     = app initial_world"
proof -
  have h: "\<forall>c\<in>set [32, 9, 160]. isWhiteSpace c" by (simp add: isWhiteSpace_def)
  have i: "inputValue (input (step (Typing [32, 9, 160]) initial_world)) = [32, 9, 160]" by simp
  have r: "results blank_result \<noteq> [] \<and> isFinal (last (results blank_result)) \<and>
           transcript_from (drop (resultIndex blank_result) (results blank_result)) = Some [32, 9, 160]"
    by (simp add: blank_result_def)
  from blank_input_creates_no_user_message[OF h, of "step (Typing [32, 9, 160]) initial_world"
      "example_clock 7" None "example_backend (Inr example_stream)" blank_result] i
  have a: "step (SubmitForm (example_clock 7) None (example_backend (Inr example_stream)))
        (step (Typing [32, 9, 160]) initial_world)
     = step (Typing [32, 9, 160]) initial_world" by blast
  from blank_input_creates_no_user_message[OF h, of initial_world
      "example_clock 7" None "example_backend (Inr example_stream)" blank_result] r
  have b: "app (step (RecognitionEnd (example_clock 7) None (example_backend (Inr example_stream)))
          (step (RecognitionResult blank_result) initial_world))
     = app initial_world" by blast
  from a b show ?thesis by blast
qed

subsection \<open>The end of a recognition session\<close>

lemma input_speech_error: "input (handleSpeechError m w) = input w"
  by (simp add: handleSpeechError_def setError_def)

lemma input_notify1: "input (notify c w) = input w"
  by (cases c) (simp_all add: input_speech_error)

lemma input_notify: "input (fold notify calls w) = input w"
  by (induction calls arbitrary: w) (simp_all add: input_notify1)

lemma input_begin: "input (handleSendMessage_begin clk txt ss env w) = input w"
  by (simp add: handleSendMessage_begin_def setters Let_def split: prod.splits)

lemma input_on_chunk: "input (snd (on_chunk c t w)) = input w"
  by (simp add: on_chunk_def setters Let_def split: option.splits)

lemma input_on_catch: "input (on_catch e t w) = input w"
  by (simp add: on_catch_def setters Let_def)

lemma input_resume: "input (snd (resume t w)) = input w"
  by (auto simp: resume_def on_finally_def input_on_catch setIsLoading_def
      split: option.splits sum.splits stream.splits list.splits prod.splits
      dest: arg_cong[where f="\<lambda>p. input (snd p)"] simp: input_on_chunk)

lemma input_advance: "input (advance i w) = input w"
  using input_resume[of "tasks w ! i" w]
  by (auto simp: advance_def split: prod.splits)

lemma input_reset: "input (handleResetConversation clk ss w) = input w"
  by (simp add: handleResetConversation_def setters Let_def)

lemma input_speaker: "input (state_of (handleSpeakerClick m ss v w)) = input w"
  by (simp add: handleSpeakerClick_def handleStopSpeech_def handlePlaySpeech_def setters Let_def
      split: option.splits)

lemma input_utterance:
  "input (on_utterance k utterance_onstart w) = input w"
  "input (on_utterance k (\<lambda>_. utterance_onend) w) = input w"
  "input (on_utterance k (\<lambda>_. utterance_onerror) w) = input w"
  by (simp_all add: on_utterance_def utterance_onstart_def utterance_onend_def
      utterance_onerror_def setters split: synth_cmd.splits)

lemma ref_step:
  assumes "latestFinalTranscriptRef (input w) = []" "\<not> finalizes e"
  shows "latestFinalTranscriptRef (input (step e w)) = []"
proof (cases e)
  case (SubmitForm clk ss env)
  then show ?thesis using assms
    by (simp add: handleSubmit_def input_begin split: prod.splits option.splits if_splits)
next
  case (ToggleRecording r st)
  then show ?thesis using assms
    by (auto simp: toggleRecording_def input_speech_error Let_def split: prod.splits start_outcome.splits if_splits)
next
  case (RetryTimer st)
  then show ?thesis using assms
    by (auto simp: retryStart_def input_speech_error Let_def split: prod.splits start_outcome.splits if_splits)
next
  case (RecognitionResult ev)
  then show ?thesis using assms
    by (auto simp: onresult_def finalizes_def Let_def split: option.splits)
next
  case (RecognitionEnd clk ss env)
  then show ?thesis using assms
    by (simp add: onend_def input_begin truthy_def Let_def split: prod.splits option.splits if_splits)
next
  case (RecognitionError ev)
  then show ?thesis using assms
    by (simp add: onerror_def input_speech_error Let_def split: prod.splits)
qed (use assms in \<open>simp_all add: input_advance input_reset input_speaker input_utterance\<close>)

lemma ref_run:
  assumes "latestFinalTranscriptRef (input w) = []" "\<forall>e\<in>set evs. \<not> finalizes e"
  shows "latestFinalTranscriptRef (input (run evs w)) = []"
  using assms unfolding run_def
  by (induction evs arbitrary: w) (simp_all add: ref_step)

lemma ref_after_start:
  assumes "speechRecognitionSupported (app w)" "\<not> isRecording (input w)"
  shows "latestFinalTranscriptRef (input (step (ToggleRecording True Started) w)) = []"
  using assms by (simp add: toggleRecording_def Let_def)

lemma ref_after_end: "latestFinalTranscriptRef (input (step (RecognitionEnd clk ss env) w)) = []"
  by (simp add: onend_def input_begin truthy_def Let_def split: prod.splits option.splits if_splits)

lemma ref_after_error: "latestFinalTranscriptRef (input (step (RecognitionError ee) w)) = []"
  by (simp add: onerror_def input_speech_error Let_def split: prod.splits)

lemma onend_empty: "latestFinalTranscriptRef ci = [] \<Longrightarrow> snd (onend ci) = None"
  by (simp add: onend_def truthy_def)

text \<open>
  Claim C4. The end of a recognition session submits the stored final transcript when
  there is one and is a no-op (apart from the recording flag) when there is none, never
  both. A session started by the microphone button in which no event carried a final
  result submits nothing at its end; and after an end or an error, whatever happens next,
  a further end submits nothing unless a new final result has arrived: a captured
  transcript is submitted at most once.
\<close>

theorem recognition_end_submits_once_or_not_at_all:
  "snd (onend ci) =
     (if latestFinalTranscriptRef ci = [] then None else Some (latestFinalTranscriptRef ci)) \<and>
   (latestFinalTranscriptRef ci = [] \<longrightarrow> fst (onend ci) = ci\<lparr>isRecording := False\<rparr>) \<and>
   (speechRecognitionSupported (app w) \<and> \<not> isRecording (input w) \<and> (\<forall>e\<in>set evs. \<not> finalizes e) \<longrightarrow>
      snd (onend (input (run evs (step (ToggleRecording True Started) w)))) = None) \<and>
   ((\<forall>e\<in>set evs. \<not> finalizes e) \<longrightarrow>
      snd (onend (input (run evs (step (RecognitionEnd clk ss env) w)))) = None \<and>
      snd (onend (input (run evs (step (RecognitionError ee) w)))) = None)"
proof -
  have a: "snd (onend ci) =
     (if latestFinalTranscriptRef ci = [] then None else Some (latestFinalTranscriptRef ci))"
    by (simp add: onend_def truthy_def)
  have b: "latestFinalTranscriptRef ci = [] \<longrightarrow> fst (onend ci) = ci\<lparr>isRecording := False\<rparr>"
    by (simp add: onend_def truthy_def)
  have c: "speechRecognitionSupported (app w) \<and> \<not> isRecording (input w) \<and> (\<forall>e\<in>set evs. \<not> finalizes e) \<longrightarrow>
      snd (onend (input (run evs (step (ToggleRecording True Started) w)))) = None"
    using ref_run[OF ref_after_start] onend_empty by blast
  have d: "(\<forall>e\<in>set evs. \<not> finalizes e) \<longrightarrow>
      snd (onend (input (run evs (step (RecognitionEnd clk ss env) w)))) = None"
    using ref_run[OF ref_after_end] onend_empty by blast
  have e: "(\<forall>e\<in>set evs. \<not> finalizes e) \<longrightarrow>
      snd (onend (input (run evs (step (RecognitionError ee) w)))) = None"
    using ref_run[OF ref_after_error] onend_empty by blast
  from a b c d e show ?thesis by blast
qed

theorem recognition_end_submits_once_or_not_at_all_witness:
  "snd (onend (input (run [RecognitionResult interim_result, Typing (lit ''x'')]
                        (step (ToggleRecording True Started) example_world)))) = None \<and>
   snd (onend (input (run [RecognitionResult interim_result, Typing (lit ''x'')]
                        (step (RecognitionEnd (example_clock 7) None (example_backend (Inr example_stream)))
                           example_world)))) = None"
proof -
  have h1: "speechRecognitionSupported (app example_world) \<and> \<not> isRecording (input example_world)"
    by (simp add: example_world_def mount_def initial_world_def setters Let_def lit_def)
  have h2: "\<forall>e\<in>set [RecognitionResult interim_result, Typing (lit ''x'')]. \<not> finalizes e"
    by (simp add: finalizes_def interim_result_def)
  from recognition_end_submits_once_or_not_at_all
         [of _ example_world "[RecognitionResult interim_result, Typing (lit ''x'')]"
             "example_clock 7" None "example_backend (Inr example_stream)"] h1 h2
  show ?thesis by blast
qed

subsection \<open>The marker of the speaking message\<close>

lemma remdups_const: "\<forall>x\<in>set ys. x = a \<Longrightarrow> length (remdups ys) \<le> 1"
proof -
  assume "\<forall>x\<in>set ys. x = a"
  then have "set ys \<subseteq> {a}" by auto
  then have "card (set ys) \<le> card {a}" by (intro card_mono) auto
  then show ?thesis by (simp add: length_remdups_card_conv)
qed

lemma speaking_ids_le: "length (speaking_ids w) \<le> 1"
proof (cases "currentlySpeakingMessageId (app w)")
  case None
  then show ?thesis by (simp add: speaking_ids_def isCurrentlySpeaking_def)
next
  case (Some a)
  then have "\<forall>x\<in>set (map msg_id (filter (\<lambda>m. isCurrentlySpeaking m w) (messages (app w)))). x = a"
    by (auto simp: isCurrentlySpeaking_def)
  then show ?thesis unfolding speaking_ids_def by (rule remdups_const)
qed

text \<open>
  Claim C5. In every state reached from the mounted page by any sequence of events, and
  after any single event from any state, the messages rendered as currently speaking
  carry at most one id, and at most one id is held by the marker.
\<close>

theorem at_most_one_speaking:
  "length (speaking_ids (run evs (mount key hasSynthesis hasRecognition clk initial_world))) \<le> 1 \<and>
   length (speaking_ids (step e w)) \<le> 1 \<and>
   card {i. currentlySpeakingMessageId (app (step e w)) = Some i} \<le> 1"
proof -
  have "{i. currentlySpeakingMessageId (app (step e w)) = Some i} \<subseteq>
        (case currentlySpeakingMessageId (app (step e w)) of None \<Rightarrow> {} | Some a \<Rightarrow> {a})"
    by (auto split: option.splits)
  moreover have "card (case currentlySpeakingMessageId (app (step e w)) of None \<Rightarrow> {} | Some a \<Rightarrow> {a}) \<le> 1"
    by (simp split: option.splits)
  moreover have "finite (case currentlySpeakingMessageId (app (step e w)) of None \<Rightarrow> {} | Some a \<Rightarrow> {a})"
    by (simp split: option.splits)
  ultimately have "card {i. currentlySpeakingMessageId (app (step e w)) = Some i} \<le> 1"
    using card_mono le_trans by blast
  then show ?thesis using speaking_ids_le by blast
qed

theorem at_most_one_speaking_witness:
  "length (speaking_ids (run [SpeakerClick 0 (Some False) None, UtteranceStart 0]
      (mount (Some (lit ''key'')) True True \<lparr>now_greet = 5, date_greet = 5\<rparr> initial_world))) \<le> 1"
  using at_most_one_speaking[of "[SpeakerClick 0 (Some False) None, UtteranceStart 0]"
      "Some (lit ''key'')" True True "\<lparr>now_greet = 5, date_greet = 5\<rparr>"]
  by blast

text \<open>
  Claim C9. While a message is marked as speaking and the synthesis reports that it is
  speaking, the speaker button of that message, the stop handler, and the play handler
  called for that same message each cancel the synthesis, clear the marker and return:
  the only call made is \<^verbatim>\<open>cancel\<close>, no utterance is created or spoken.
\<close>

theorem cancel_playback_clears_marker:
  assumes "speechSynthesisSupported (app w)"
    and "currentlySpeakingMessageId (app w) = Some (msg_id m)"
  shows "handleSpeakerClick m (Some True) voice w
           = Returns (setCurrentlySpeakingMessageId None (synth_call Cancel w)) \<and>
         handleStopSpeech (Some True) w
           = Returns (setCurrentlySpeakingMessageId None (synth_call Cancel w)) \<and>
         (truthy txt \<longrightarrow> handlePlaySpeech txt (msg_id m) (Some True) voice w
           = Returns (setCurrentlySpeakingMessageId None (synth_call Cancel w))) \<and>
         currentlySpeakingMessageId (app (setCurrentlySpeakingMessageId None (synth_call Cancel w))) = None \<and>
         synth_log (setCurrentlySpeakingMessageId None (synth_call Cancel w)) = synth_log w @ [Cancel] \<and>
         utteranceRef (app (setCurrentlySpeakingMessageId None (synth_call Cancel w))) = utteranceRef (app w)"
  using assms
  by (simp add: handleSpeakerClick_def handleStopSpeech_def handlePlaySpeech_def
      isCurrentlySpeaking_def setCurrentlySpeakingMessageId_def synth_call_def)

theorem cancel_playback_clears_marker_witness:
  "currentlySpeakingMessageId (app (step (SpeakerClick 0 (Some True) None) speaking_world)) = None \<and>
   synth_log (step (SpeakerClick 0 (Some True) None) speaking_world) = synth_log speaking_world @ [Cancel]"
proof -
  have sup: "speechSynthesisSupported (app speaking_world)"
    by (simp add: speaking_world_def)
  have mk: "currentlySpeakingMessageId (app speaking_world) = Some (msg_id example_message)"
    by (simp add: speaking_world_def)
  have msgs: "messages (app speaking_world) = [example_message]"
    by (simp add: speaking_world_def)
  have shown: "speaker_button_shown example_message speaking_world"
    using sup by (simp add: speaker_button_shown_def truthy_def example_message_def lit_def)
  from cancel_playback_clears_marker[OF sup mk, of None] msgs shown
  show ?thesis by simp
qed

subsection \<open>Message ids\<close>

subsubsection \<open>Decimal rendering is injective\<close>

lemma digits_value: "foldl (\<lambda>a c. 10 * a + (c - 48)) 0 (digits n) = n"
proof (induction n rule: digits.induct)
  case (1 n)
  show ?case
  proof (cases "n < 10")
    case True
    then show ?thesis by (simp add: digits.simps[of n])
  next
    case False
    with 1 show ?thesis by (simp add: digits.simps[of n])
  qed
qed

lemma digits_inj: "digits n = digits m \<Longrightarrow> n = m"
  by (metis digits_value)

lemma digits_range: "c \<in> set (digits n) \<Longrightarrow> 48 \<le> c \<and> c \<le> 57"
proof (induction n rule: digits.induct)
  case (1 n)
  show ?case
  proof (cases "n < 10")
    case True
    with 1(2) show ?thesis by (simp add: digits.simps[of n])
  next
    case False
    with 1 show ?thesis by (auto simp: digits.simps[of n])
  qed
qed

lemma digits_nonempty: "digits n \<noteq> []"
  by (simp add: digits.simps[of n])

lemma hd_digit: "hd (digits k) \<noteq> 45"
proof -
  have "hd (digits k) \<in> set (digits k)" using digits_nonempty by simp
  then have "48 \<le> hd (digits k)" using digits_range by blast
  then show ?thesis by simp
qed

lemma number_toString_inj: "number_toString n = number_toString m \<Longrightarrow> n = m"
proof -
  assume eq: "number_toString n = number_toString m"
  show ?thesis
  proof (cases "n < 0"; cases "m < 0")
    assume "n < 0" "m < 0"
    with eq have "digits (nat (- n)) = digits (nat (- m))" by (simp add: number_toString_def)
    then have "nat (- n) = nat (- m)" by (rule digits_inj)
    with \<open>n < 0\<close> \<open>m < 0\<close> show ?thesis by simp
  next
    assume "n < 0" "\<not> m < 0"
    with eq have "45 # digits (nat (- n)) = digits (nat m)" by (simp add: number_toString_def)
    then have "hd (digits (nat m)) = 45" by (metis list.sel(1))
    with hd_digit show ?thesis by blast
  next
    assume "\<not> n < 0" "m < 0"
    with eq have "digits (nat n) = 45 # digits (nat (- m))" by (simp add: number_toString_def)
    then have "hd (digits (nat n)) = 45" by (metis list.sel(1))
    with hd_digit show ?thesis by blast
  next
    assume "\<not> n < 0" "\<not> m < 0"
    with eq have "digits (nat n) = digits (nat m)" by (simp add: number_toString_def)
    then have "nat n = nat m" by (rule digits_inj)
    with \<open>\<not> n < 0\<close> \<open>\<not> m < 0\<close> show ?thesis by simp
  qed
qed

lemma number_toString_last:
  "number_toString n \<noteq> [] \<and> 48 \<le> last (number_toString n) \<and> last (number_toString n) \<le> 57"
proof -
  have "\<And>k. last (digits k) \<in> set (digits k)" using digits_nonempty by simp
  then have "\<And>k. 48 \<le> last (digits k) \<and> last (digits k) \<le> 57" using digits_range by blast
  then show ?thesis using digits_nonempty by (simp add: number_toString_def)
qed

subsubsection \<open>How each event changes the ids of the transcript\<close>

lemma ids_begin:
  "transcript_ids (handleSendMessage_begin clk txt ss env w) =
     (if apiKeyMissing (app w) then transcript_ids w
      else transcript_ids w @ [user_id clk, ai_id clk])"
  by (simp add: handleSendMessage_begin_def transcript_ids_def user_id_def ai_id_def setters Let_def
      split: prod.splits)

lemma ids_input [simp]:
  "transcript_ids (w\<lparr>input := ci\<rparr>) = transcript_ids w"
  "transcript_ids (w\<lparr>input := ci, retry_timers := n\<rparr>) = transcript_ids w"
  by (simp_all add: transcript_ids_def)

lemma ids_speech_error: "transcript_ids (handleSpeechError m w) = transcript_ids w"
  by (simp add: handleSpeechError_def setError_def transcript_ids_def)

lemma ids_notify: "transcript_ids (fold notify calls w) = transcript_ids w"
proof (induction calls arbitrary: w)
  case Nil
  then show ?case by simp
next
  case (Cons c calls)
  have "transcript_ids (notify c w) = transcript_ids w"
    by (cases c) (simp_all add: ids_speech_error, simp_all add: transcript_ids_def)
  with Cons show ?case by simp
qed

lemma map_id_rewrite:
  "map msg_id (map (\<lambda>msg. if P msg then msg\<lparr>msg_text := v\<rparr> else msg) ms) = map msg_id ms"
  by (induction ms) simp_all

lemma ids_on_chunk: "transcript_ids (snd (on_chunk c t w)) = transcript_ids w"
  by (simp add: on_chunk_def transcript_ids_def setMessages_def Let_def map_id_rewrite
      split: option.splits)

lemma ids_on_catch: "transcript_ids (on_catch e t w) = transcript_ids w"
  by (simp add: on_catch_def transcript_ids_def setMessages_def setError_def Let_def map_id_rewrite)

lemma ids_on_finally: "transcript_ids (on_finally w) = transcript_ids w"
  by (simp add: on_finally_def transcript_ids_def setIsLoading_def)

lemma ids_resume: "transcript_ids (snd (resume t w)) = transcript_ids w"
proof (cases "pending t")
  case None
  then show ?thesis by (simp add: resume_def)
next
  case (Some r)
  show ?thesis
  proof (cases r)
    case (Inl e)
    with Some show ?thesis by (simp add: resume_def ids_on_finally ids_on_catch)
  next
    case (Inr st)
    obtain cs err where st: "st = Stream cs err" by (cases st)
    show ?thesis
    proof (cases cs)
      case Nil
      with Some Inr st show ?thesis
        by (cases err) (simp_all add: resume_def ids_on_finally ids_on_catch)
    next
      case (Cons c rest)
      obtain t' w' where oc: "on_chunk c t w = (t', w')" by (cases "on_chunk c t w")
      with ids_on_chunk[of c t w] have "transcript_ids w' = transcript_ids w" by simp
      with Some Inr st Cons oc show ?thesis
        by (simp add: resume_def transcript_ids_def)
    qed
  qed
qed

lemma ids_advance: "transcript_ids (advance i w) = transcript_ids w"
  using ids_resume[of "tasks w ! i" w]
  by (auto simp: advance_def transcript_ids_def split: prod.splits)

lemma ids_reset:
  "transcript_ids (handleResetConversation clk ss w) = [lit ''reset-greet-'' @ number_toString (now_greet clk)]"
  by (simp add: handleResetConversation_def transcript_ids_def setters Let_def)

lemma ids_speaker: "transcript_ids (state_of (handleSpeakerClick m ss v w)) = transcript_ids w"
  by (simp add: handleSpeakerClick_def handleStopSpeech_def handlePlaySpeech_def setters Let_def
      transcript_ids_def split: option.splits)

lemma ids_utterance:
  "transcript_ids (on_utterance k utterance_onstart w) = transcript_ids w"
  "transcript_ids (on_utterance k (\<lambda>_. utterance_onend) w) = transcript_ids w"
  "transcript_ids (on_utterance k (\<lambda>_. utterance_onerror) w) = transcript_ids w"
  by (simp_all add: on_utterance_def utterance_onstart_def utterance_onend_def
      utterance_onerror_def setters transcript_ids_def split: synth_cmd.splits)

lemma ids_step:
  "transcript_ids (step e w) = transcript_ids w \<or>
   (\<exists>clk. sending e w = [clk] \<and> transcript_ids (step e w) = transcript_ids w @ [user_id clk, ai_id clk]) \<or>
   (\<exists>n. transcript_ids (step e w) = [lit ''reset-greet-'' @ number_toString n])"
proof (cases e)
  case (SubmitForm clk ss env)
  obtain ci r where h: "handleSubmit (isLoading (app w)) (input w) = (ci, r)"
    by (cases "handleSubmit (isLoading (app w)) (input w)")
  show ?thesis
  proof (cases r)
    case None
    with SubmitForm h show ?thesis by simp
  next
    case (Some t)
    with SubmitForm h show ?thesis by (simp add: ids_begin sending_def)
  qed
next
  case (ToggleRecording r st)
  then show ?thesis by (simp add: ids_notify split: prod.splits)
next
  case (RetryTimer st)
  then show ?thesis by (simp add: ids_notify split: prod.splits)
next
  case (RecognitionEnd clk ss env)
  obtain ci r where h: "onend (input w) = (ci, r)"
    by (cases "onend (input w)")
  show ?thesis
  proof (cases r)
    case None
    with RecognitionEnd h show ?thesis by simp
  next
    case (Some t)
    with RecognitionEnd h show ?thesis by (simp add: ids_begin sending_def)
  qed
next
  case (RecognitionError ev)
  then show ?thesis by (simp add: ids_notify split: prod.splits)
next
  case (NewChat clk ss)
  then show ?thesis by (auto simp: ids_reset)
qed (simp_all add: ids_advance ids_speaker ids_utterance)

subsubsection \<open>Distinct ids\<close>

lemma last_user_id: "last (user_id c) = 114"
  by (simp add: user_id_def lit_def)

lemma last_ai_id: "last (ai_id c) = 105"
  by (simp add: ai_id_def lit_def)

lemma user_id_inj: "user_id c = user_id d \<Longrightarrow> now_user c = now_user d"
  by (simp add: user_id_def number_toString_inj)

lemma ai_id_inj: "ai_id c = ai_id d \<Longrightarrow> now_ai c = now_ai d"
  by (simp add: ai_id_def number_toString_inj)

lemma user_ne_ai: "user_id c \<noteq> ai_id d"
  using last_user_id[of c] last_ai_id[of d] by auto

lemma greet_ne: "greet_like i \<Longrightarrow> i \<noteq> user_id c \<and> i \<noteq> ai_id c"
  using last_user_id[of c] last_ai_id[of c] by (auto simp: greet_like_def)

lemma greet_like_greeting: "greet_like (p @ number_toString n)"
  using number_toString_last[of n] by (simp add: greet_like_def)

lemma ids_ok_mono: "ids_ok S xs \<Longrightarrow> S \<subseteq> T \<Longrightarrow> ids_ok T xs"
  unfolding ids_ok_def by blast

lemma ids_ok_member:
  assumes "ids_ok S xs" "i \<in> set xs"
  shows "greet_like i \<or> (\<exists>c\<in>S. i = user_id c) \<or> (\<exists>c\<in>S. i = ai_id c)"
  using assms unfolding ids_ok_def by blast

lemma user_id_fresh:
  assumes "ids_ok S xs" "now_user clk \<notin> now_user ` S"
  shows "user_id clk \<notin> set xs"
proof
  assume "user_id clk \<in> set xs"
  from ids_ok_member[OF assms(1) this]
  show False
  proof (elim disjE bexE)
    assume "greet_like (user_id clk)"
    then show False using greet_ne[of "user_id clk" clk] by simp
  next
    fix c assume c: "c \<in> S" "user_id clk = user_id c"
    from c(2) have "now_user clk = now_user c" by (rule user_id_inj)
    with c(1) have "now_user clk \<in> now_user ` S" by simp
    with assms(2) show False by simp
  next
    fix c assume "c \<in> S" "user_id clk = ai_id c"
    then show False using user_ne_ai[of clk c] by simp
  qed
qed

lemma ai_id_fresh:
  assumes "ids_ok S xs" "now_ai clk \<notin> now_ai ` S"
  shows "ai_id clk \<notin> set xs"
proof
  assume "ai_id clk \<in> set xs"
  from ids_ok_member[OF assms(1) this]
  show False
  proof (elim disjE bexE)
    assume "greet_like (ai_id clk)"
    then show False using greet_ne[of "ai_id clk" clk] by simp
  next
    fix c assume "c \<in> S" "ai_id clk = user_id c"
    then show False using user_ne_ai[of c clk] by simp
  next
    fix c assume c: "c \<in> S" "ai_id clk = ai_id c"
    from c(2) have "now_ai clk = now_ai c" by (rule ai_id_inj)
    with c(1) have "now_ai clk \<in> now_ai ` S" by simp
    with assms(2) show False by simp
  qed
qed

lemma ids_ok_send:
  assumes "ids_ok S xs" "now_user clk \<notin> now_user ` S" "now_ai clk \<notin> now_ai ` S"
  shows "ids_ok (insert clk S) (xs @ [user_id clk, ai_id clk])"
proof -
  note u = user_id_fresh[OF assms(1,2)]
  note a = ai_id_fresh[OF assms(1,3)]
  have dx: "distinct xs" using assms(1) by (simp add: ids_ok_def)
  have d: "distinct (xs @ [user_id clk, ai_id clk])"
    using dx u a user_ne_ai[of clk clk] by simp
  have m: "greet_like i \<or> (\<exists>c\<in>insert clk S. i = user_id c \<or> i = ai_id c)"
    if "i \<in> set (xs @ [user_id clk, ai_id clk])" for i
  proof -
    from that consider "i \<in> set xs" | "i = user_id clk" | "i = ai_id clk" by auto
    then show ?thesis
    proof cases
      case 1
      from ids_ok_member[OF assms(1) this] show ?thesis by blast
    next
      case 2
      then show ?thesis by blast
    next
      case 3
      then show ?thesis by blast
    qed
  qed
  from d m show ?thesis unfolding ids_ok_def by blast
qed

lemma ids_ok_greeting: "ids_ok S [p @ number_toString n]"
  using greet_like_greeting[of p n] by (simp add: ids_ok_def)

lemma step_ok:
  assumes "ids_ok S (transcript_ids w)"
    and "\<forall>c\<in>set (sending e w). now_user c \<notin> now_user ` S \<and> now_ai c \<notin> now_ai ` S"
  shows "ids_ok (S \<union> set (sending e w)) (transcript_ids (step e w))"
proof -
  from ids_step[of e w] consider
      "transcript_ids (step e w) = transcript_ids w"
    | clk where "sending e w = [clk]" "transcript_ids (step e w) = transcript_ids w @ [user_id clk, ai_id clk]"
    | n where "transcript_ids (step e w) = [lit ''reset-greet-'' @ number_toString n]"
    by blast
  then show ?thesis
  proof cases
    case 1
    then show ?thesis using assms(1) ids_ok_mono by force
  next
    case 2
    then show ?thesis using ids_ok_send[OF assms(1), of clk] assms(2) by simp
  next
    case 3
    then show ?thesis using ids_ok_greeting by simp
  qed
qed

lemma run_ok:
  assumes "ids_ok (set acc) (transcript_ids w)"
    and "distinct (map now_user (acc @ readings evs w))"
    and "distinct (map now_ai (acc @ readings evs w))"
  shows "ids_ok (set (acc @ readings evs w)) (transcript_ids (run evs w))"
  using assms
proof (induction evs arbitrary: acc w)
  case Nil
  then show ?case by (simp add: run_def)
next
  case (Cons e es)
  have fresh: "\<forall>c\<in>set (sending e w). now_user c \<notin> now_user ` set acc \<and> now_ai c \<notin> now_ai ` set acc"
    using Cons.prems(2,3) by auto
  have s1: "ids_ok (set (acc @ sending e w)) (transcript_ids (step e w))"
    using step_ok[OF Cons.prems(1) fresh] by simp
  have "ids_ok (set ((acc @ sending e w) @ readings es (step e w))) (transcript_ids (run es (step e w)))"
    using Cons.prems(2,3) by (intro Cons.IH[OF s1]) simp_all
  then show ?case by (simp add: run_def)
qed

lemma mount_ids:
  "transcript_ids (mount key hs hr clk initial_world) = [] \<or>
   transcript_ids (mount key hs hr clk initial_world) = [lit ''init-greet-'' @ number_toString (now_greet clk)]"
proof (cases "key = None \<or> key = Some []")
  case True
  then have "transcript_ids (mount key hs hr clk initial_world) = []"
    by (simp add: mount_def transcript_ids_def setError_def initial_world_def)
  then show ?thesis by simp
next
  case False
  then have "transcript_ids (mount key hs hr clk initial_world) =
               [lit ''init-greet-'' @ number_toString (now_greet clk)]"
    by (auto simp: mount_def transcript_ids_def setMessages_def Let_def)
  then show ?thesis by simp
qed

lemma mount_ok: "ids_ok {} (transcript_ids (mount key hs hr clk initial_world))"
proof -
  have "ids_ok {} []" by (simp add: ids_ok_def)
  then show ?thesis
    using mount_ids[of key hs hr clk] ids_ok_greeting[of "{}" "lit ''init-greet-''" "now_greet clk"]
    by metis
qed

lemma apiKey_begin:
  "apiKeyMissing (app (handleSendMessage_begin clk txt ss env w)) = apiKeyMissing (app w)"
  by (simp add: handleSendMessage_begin_def setters Let_def split: prod.splits)

lemma example_world_app:
  "apiKeyMissing (app example_world) = False"
  "speechRecognitionSupported (app example_world) = True"
  "isLoading (app example_world) = False"
  "input example_world = \<lparr>inputValue = [], isRecording = False, latestFinalTranscriptRef = []\<rparr>"
  by (simp_all add: example_world_def mount_def setMessages_def Let_def lit_def initial_world_def)

lemma ids_recog_log: "transcript_ids (w\<lparr>recog_log := l\<rparr>) = transcript_ids w"
  by (simp add: transcript_ids_def)

lemma overlapping_readings: "readings (overlapping_sends c1 c2 s) example_world = [c1, c2]"
  by (simp add: overlapping_sends_def sending_def apiKey_begin input_begin example_world_app
      toggleRecording_def handleSubmit_def onresult_def onend_def final_b_def
      trim_def isWhiteSpace_def truthy_def Let_def)

lemma overlapping_ids:
  "transcript_ids (run (overlapping_sends c1 c2 s) example_world) =
     transcript_ids example_world @ [user_id c1, ai_id c1, user_id c2, ai_id c2]"
  by (simp add: overlapping_sends_def run_def ids_begin ids_recog_log apiKey_begin input_begin example_world_app
      toggleRecording_def handleSubmit_def onresult_def onend_def final_b_def
      trim_def isWhiteSpace_def truthy_def Let_def)

text \<open>
  Claim C6, as amended. From the mounted page, after any sequence of events in which the
  sends took pairwise distinct clock readings for their user ids and pairwise distinct
  readings for their assistant ids, the ids of the transcript are pairwise distinct.
\<close>

theorem ids_distinct_when_clock_readings_differ:
  assumes "distinct (map now_user
             (readings evs (mount key hasSynthesis hasRecognition clk initial_world)))"
    and "distinct (map now_ai
             (readings evs (mount key hasSynthesis hasRecognition clk initial_world)))"
  shows "distinct (transcript_ids (run evs (mount key hasSynthesis hasRecognition clk initial_world)))"
proof -
  have "ids_ok (set ([] @ readings evs (mount key hasSynthesis hasRecognition clk initial_world)))
          (transcript_ids (run evs (mount key hasSynthesis hasRecognition clk initial_world)))"
    using assms mount_ok by (intro run_ok) simp_all
  then show ?thesis by (simp add: ids_ok_def)
qed

theorem ids_distinct_when_clock_readings_differ_witness:
  "distinct (transcript_ids
       (run (overlapping_sends (example_clock 7) (example_clock 8) example_stream)
          (mount (Some (lit ''key'')) True True \<lparr>now_greet = 5, date_greet = 5\<rparr> initial_world)))"
proof -
  have h1: "distinct (map now_user
              (readings (overlapping_sends (example_clock 7) (example_clock 8) example_stream)
                 (mount (Some (lit ''key'')) True True \<lparr>now_greet = 5, date_greet = 5\<rparr> initial_world)))"
    using overlapping_readings[of "example_clock 7" "example_clock 8" example_stream]
    by (simp add: example_world_def example_clock_def)
  have h2: "distinct (map now_ai
              (readings (overlapping_sends (example_clock 7) (example_clock 8) example_stream)
                 (mount (Some (lit ''key'')) True True \<lparr>now_greet = 5, date_greet = 5\<rparr> initial_world)))"
    using overlapping_readings[of "example_clock 7" "example_clock 8" example_stream]
    by (simp add: example_world_def example_clock_def)
  from ids_distinct_when_clock_readings_differ[OF h1 h2] show ?thesis .
qed

text \<open>
  Claim C6 as stated fails: a typed message submitted with the Enter key while the
  microphone records, and the end of the recognition in the same clock tick, give two user
  messages with the same id and two assistant messages with the same id.
\<close>

theorem ids_clash_in_one_clock_tick:
  "\<not> distinct (transcript_ids
       (run (overlapping_sends (example_clock 7) (example_clock 7) example_stream)
          (mount (Some (lit ''key'')) True True \<lparr>now_greet = 5, date_greet = 5\<rparr> initial_world)))"
  using overlapping_ids[of "example_clock 7" "example_clock 7" example_stream]
  by (simp add: example_world_def)

subsection \<open>A failing stream\<close>

lemma set_text_twice: "set_text_of a v (set_text_of a u ms) = set_text_of a v ms"
  by (induction ms) (simp_all add: set_text_of_def)

lemma same_but_text_refl: "same_but_text a w w"
  by (simp add: same_but_text_def)

lemma same_but_text_trans: "same_but_text a w w' \<Longrightarrow> same_but_text a w' w'' \<Longrightarrow> same_but_text a w w''"
  by (simp add: same_but_text_def)

lemma on_chunk_same:
  "case on_chunk c t w of (t', w') \<Rightarrow>
     aiMessageId t' = aiMessageId t \<and> pending t' = pending t \<and> tasks w' = tasks w \<and>
     same_but_text (aiMessageId t) w w'"
  by (cases c)
     (auto simp: on_chunk_def same_but_text_def setMessages_def Let_def
        set_text_twice[unfolded set_text_of_def] set_text_of_def)

lemma advance_chunk_same:
  assumes "i < length (tasks w)" "tasks w ! i = t"
    "pending t = Some (Inr (Stream (c # rest) err))"
  shows "i < length (tasks (advance i w)) \<and>
         aiMessageId (tasks (advance i w) ! i) = aiMessageId t \<and>
         pending (tasks (advance i w) ! i) = Some (Inr (Stream rest err)) \<and>
         same_but_text (aiMessageId t) w (advance i w)"
proof -
  obtain t' w' where oc: "on_chunk c t w = (t', w')" by (cases "on_chunk c t w")
  with on_chunk_same[where c=c and t=t and w=w]
  have f: "aiMessageId t' = aiMessageId t" "tasks w' = tasks w" "same_but_text (aiMessageId t) w w'"
    by simp_all
  have adv: "advance i w = w'\<lparr>tasks := (tasks w')[i := t'\<lparr>pending := Some (Inr (Stream rest err))\<rparr>]\<rparr>"
    using assms oc by (simp add: advance_def resume_def)
  show ?thesis
    unfolding adv using assms(1) f by (simp add: same_but_text_def)
qed

lemma advance_chunks_same:
  assumes "i < length (tasks w)" "tasks w ! i = t"
    "pending t = Some (Inr (Stream (cs @ rest) err))"
  shows "i < length (tasks ((advance i ^^ length cs) w)) \<and>
         aiMessageId (tasks ((advance i ^^ length cs) w) ! i) = aiMessageId t \<and>
         pending (tasks ((advance i ^^ length cs) w) ! i) = Some (Inr (Stream rest err)) \<and>
         same_but_text (aiMessageId t) w ((advance i ^^ length cs) w)"
  using assms
proof (induction cs arbitrary: w t)
  case Nil
  then show ?case by (simp add: same_but_text_refl)
next
  case (Cons c cs)
  have p3: "pending t = Some (Inr (Stream (c # (cs @ rest)) err))" using Cons.prems(3) by simp
  note s = advance_chunk_same[OF Cons.prems(1,2) p3]
  let ?w1 = "advance i w"
  let ?t1 = "tasks ?w1 ! i"
  have q3: "pending ?t1 = Some (Inr (Stream (cs @ rest) err))" using s by simp
  have q1: "i < length (tasks ?w1)" using s by simp
  note IH = Cons.IH[OF q1 refl q3]
  have fp: "(advance i ^^ length (c # cs)) w = (advance i ^^ length cs) ?w1"
    by (simp add: funpow_swap1)
  have a: "aiMessageId ?t1 = aiMessageId t" using s by simp
  show ?case
    unfolding fp using IH s a same_but_text_trans[of "aiMessageId t" w ?w1 "(advance i ^^ length cs) ?w1"]
    by simp
qed

lemma advance_fail:
  assumes "i < length (tasks w)" "tasks w ! i = t"
    "pending t = Some (Inl e) \<or> pending t = Some (Inr (Stream [] (Some e)))"
  shows "messages (app (advance i w)) = set_text_of (aiMessageId t) (failure_notice e) (messages (app w)) \<and>
         error (app (advance i w)) = Some (failure_banner e) \<and>
         isLoading (app (advance i w)) = False \<and>
         apiKeyMissing (app (advance i w)) = apiKeyMissing (app w) \<and>
         api_log (advance i w) = api_log w \<and>
         pending (tasks (advance i w) ! i) = None"
  using assms
  by (auto simp: advance_def resume_def on_finally_def on_catch_def setters Let_def
      set_text_of_def failure_notice_def failure_banner_def errorMessage_of_def)

lemma calls_at_most_one: "length (snd (snd (sendMessageToTejaswiStream txt env s))) \<le> 1"
  by (simp add: sendMessageToTejaswiStream_def send_after_init_def
      split: prod.splits sum.splits option.splits)

lemma send_begin_frame:
  assumes "\<not> apiKeyMissing (app w)"
  shows "messages (app (handleSendMessage_begin clk txt ss env w)) =
           messages (app w) @ [user_message clk txt, ai_placeholder clk] \<and>
         apiKeyMissing (app (handleSendMessage_begin clk txt ss env w)) = False \<and>
         api_log (handleSendMessage_begin clk txt ss env w) =
           api_log w @ snd (snd (sendMessageToTejaswiStream txt env (svc w))) \<and>
         length (tasks (handleSendMessage_begin clk txt ss env w)) = Suc (length (tasks w)) \<and>
         tasks (handleSendMessage_begin clk txt ss env w) ! length (tasks w) =
           \<lparr>aiMessageId = ai_id clk, currentAiResponseText = [],
            pending = Some (fst (sendMessageToTejaswiStream txt env (svc w)))\<rparr>"
  using assms
  by (simp add: handleSendMessage_begin_def setters Let_def user_message_def ai_placeholder_def
      user_id_def ai_id_def split: prod.splits)

lemma send_failure:
  assumes "\<not> apiKeyMissing (app w)"
    and "fst (sendMessageToTejaswiStream txt env (svc w)) = Inl e \<or>
         fst (sendMessageToTejaswiStream txt env (svc w)) = Inr (Stream chunks (Some e))"
  shows "messages (app (handleSendMessage clk txt ss env w)) =
           set_text_of (ai_id clk) (failure_notice e)
             (messages (app w) @ [user_message clk txt, ai_placeholder clk]) \<and>
         error (app (handleSendMessage clk txt ss env w)) = Some (failure_banner e) \<and>
         isLoading (app (handleSendMessage clk txt ss env w)) = False \<and>
         apiKeyMissing (app (handleSendMessage clk txt ss env w)) = False \<and>
         pending (tasks (handleSendMessage clk txt ss env w) ! length (tasks w)) = None \<and>
         length (api_log (handleSendMessage clk txt ss env w)) \<le> Suc (length (api_log w))"
proof -
  let ?w0 = "handleSendMessage_begin clk txt ss env w"
  let ?i = "length (tasks w)"
  let ?t0 = "tasks ?w0 ! ?i"
  note b = send_begin_frame [OF assms(1), of clk "txt" ss env]
  have i0: "?i < length (tasks ?w0)" using b by simp
  have id0: "aiMessageId ?t0 = ai_id clk" using b by simp
  have log0: "length (api_log ?w0) \<le> Suc (length (api_log w))"
    using b calls_at_most_one[of "txt" env "svc w"] by simp
  have run: "handleSendMessage clk txt ss env w = (advance ?i ^^ steps_left ?t0) ?w0"
    using i0 by (simp add: handleSendMessage_def Let_def)
  from assms(2) show ?thesis
  proof
    assume r: "fst (sendMessageToTejaswiStream txt env (svc w)) = Inl e"
    then have p: "pending ?t0 = Some (Inl e)" using b by simp
    then have "steps_left ?t0 = 1" by (simp add: steps_left_def)
    then have run1: "handleSendMessage clk txt ss env w = advance ?i ?w0" using run by simp
    from p have p': "pending ?t0 = Some (Inl e) \<or> pending ?t0 = Some (Inr (Stream [] (Some e)))"
      by simp
    from advance_fail[OF i0 refl p'] id0 b log0
    show ?thesis unfolding run1 by simp
  next
    assume r: "fst (sendMessageToTejaswiStream txt env (svc w)) = Inr (Stream chunks (Some e))"
    then have p: "pending ?t0 = Some (Inr (Stream (chunks @ []) (Some e)))" using b by simp
    then have "steps_left ?t0 = Suc (length chunks)" by (simp add: steps_left_def)
    then have run1: "handleSendMessage clk txt ss env w =
                       advance ?i ((advance ?i ^^ length chunks) ?w0)"
      using run by simp
    let ?w1 = "(advance ?i ^^ length chunks) ?w0"
    note c = advance_chunks_same[OF i0 refl p]
    have i1: "?i < length (tasks ?w1)" using c by simp
    have p1: "pending (tasks ?w1 ! ?i) = Some (Inl e) \<or>
              pending (tasks ?w1 ! ?i) = Some (Inr (Stream [] (Some e)))" using c by simp
    have id1: "aiMessageId (tasks ?w1 ! ?i) = ai_id clk" using c id0 by simp
    have same: "same_but_text (ai_id clk) ?w0 ?w1" using c id0 by simp
    then have m1: "set_text_of (ai_id clk) (failure_notice e) (messages (app ?w1)) =
                   set_text_of (ai_id clk) (failure_notice e) (messages (app ?w0))"
      by (simp add: same_but_text_def)
    from advance_fail[OF i1 refl p1] id1 m1 same b log0
    show ?thesis unfolding run1 by (simp add: same_but_text_def)
  qed
qed

lemma advance_end:
  assumes "i < length (tasks w)" "pending (tasks w ! i) = Some (Inr (Stream [] None))"
  shows "pending (tasks (advance i w) ! i) = None"
  using assms by (simp add: advance_def resume_def on_finally_def setIsLoading_def)

text \<open>The uninterrupted send returns, whatever the service answers.\<close>

lemma handleSendMessage_returns:
  assumes "\<not> apiKeyMissing (app w)"
  shows "pending (tasks (handleSendMessage clk txt ss env w) ! length (tasks w)) = None"
proof (cases "fst (sendMessageToTejaswiStream txt env (svc w))")
  case (Inl e)
  then show ?thesis using send_failure[OF assms, of "txt" env e _ clk ss] by simp
next
  case (Inr st)
  obtain chunks err where st: "st = Stream chunks err" by (cases st)
  show ?thesis
  proof (cases err)
    case (Some e)
    with Inr st show ?thesis using send_failure[OF assms, of "txt" env e chunks clk ss] by simp
  next
    case None
    let ?w0 = "handleSendMessage_begin clk txt ss env w"
    let ?i = "length (tasks w)"
    note b = send_begin_frame [OF assms, of clk "txt" ss env]
    have i0: "?i < length (tasks ?w0)" using b by simp
    have p: "pending (tasks ?w0 ! ?i) = Some (Inr (Stream (chunks @ []) None))"
      using b Inr st None by simp
    then have "steps_left (tasks ?w0 ! ?i) = Suc (length chunks)" by (simp add: steps_left_def)
    then have run1: "handleSendMessage clk txt ss env w =
                       advance ?i ((advance ?i ^^ length chunks) ?w0)"
      using i0 by (simp add: handleSendMessage_def Let_def)
    note c = advance_chunks_same[OF i0 refl p]
    show ?thesis unfolding run1 using c by (intro advance_end) simp_all
  qed
qed
















subsection \<open>Changes of the transcript\<close>


























end
